theory Spec2Isabelle
  imports Main
begin

section \<open>AutoStile: calling a slave context as though it were an AutoFilter\<close>

text \<open>
  The development embeds \<^verbatim>\<open>contrib/autowiring/autowiring/AutoStile.h\<close>. The class
  template \<^verbatim>\<open>AutoStile<Args...>\<close> has one data member, the weak reference
  \<^verbatim>\<open>m_slave_factory\<close>, and three member functions of interest: \<^verbatim>\<open>AutoFilter\<close>,
  \<^verbatim>\<open>Leash\<close> and the lambda that \<^verbatim>\<open>Leash\<close> hands to the context. Everything else it
  touches (packets, factories, contexts, the parameter traits) lives in headers that
  are included but are not part of the embedded file; those parts are modelled from
  the design document and every such definition says so.
\<close>

subsection \<open>Identities and the shared store\<close>

type_synonym addr = nat \<comment> \<open>a cell of the store: the object a reference designates\<close>
type_synonym tid = nat \<comment> \<open>a value-type identity, \<^verbatim>\<open>auto_arg<T>::id_type\<close>\<close>
type_synonym pid = nat \<comment> \<open>an \<^verbatim>\<open>AutoPacket\<close>\<close>
type_synonym fid = nat \<comment> \<open>an \<^verbatim>\<open>AutoPacketFactory\<close>\<close>
type_synonym cid = nat \<comment> \<open>a \<^verbatim>\<open>CoreContext\<close>\<close>
type_synonym val = int \<comment> \<open>the contents of a cell\<close>
type_synonym pref = nat \<comment> \<open>a reference to a parameter object of a call: its place on the stack\<close>

subsection \<open>Declared parameters and their traits\<close>

text \<open>
  A member of the pack \<^verbatim>\<open>Args...\<close>, up to what the stile can tell apart: a shared
  input (\<^verbatim>\<open>std::shared_ptr<const T>\<close>), an input held by value, the extraction marker
  \<^verbatim>\<open>auto_out<T>\<close>, and an unshared output (\<^verbatim>\<open>T&\<close>).
\<close>

datatype data_pipe = Shared_in tid | Value_in tid | Auto_out tid | Ref_out tid

text \<open>
  Modelled from the spec: the traits \<^verbatim>\<open>auto_arg<data_pipe>::is_input\<close>,
  \<^verbatim>\<open>::is_output\<close> and \<^verbatim>\<open>::id_type\<close> (the Parameter Classifier; its header is not
  part of the embedded file). A parameter has exactly one direction and an
  underlying value type.
\<close>

fun is_input :: "data_pipe \<Rightarrow> bool" where
  "is_input (Shared_in t) = True"
| "is_input (Value_in t) = True"
| "is_input (Auto_out t) = False"
| "is_input (Ref_out t) = False"

fun is_output :: "data_pipe \<Rightarrow> bool" where
  "is_output (Shared_in t) = False"
| "is_output (Value_in t) = False"
| "is_output (Auto_out t) = True"
| "is_output (Ref_out t) = True"

fun id_type :: "data_pipe \<Rightarrow> tid" where
  "id_type (Shared_in t) = t"
| "id_type (Value_in t) = t"
| "id_type (Auto_out t) = t"
| "id_type (Ref_out t) = t"

text \<open>
  Modelled from the spec: whether the value of an input is a shared reference, which
  decides the overload of \<^verbatim>\<open>AutoPacket::Decorate\<close> that the call selects.
\<close>

fun is_shared :: "data_pipe \<Rightarrow> bool" where
  "is_shared (Shared_in t) = True"
| "is_shared p = False"

text \<open>
  Modelled from the spec: \<^verbatim>\<open>var_and<...>::value\<close> of \<^verbatim>\<open>var_logic.h\<close>, the logical AND
  of a pack of booleans, true on the empty pack.
\<close>

fun var_and :: "bool list \<Rightarrow> bool" where
  "var_and [] = True"
| "var_and (b # bs) = (b \<and> var_and bs)"

subsection \<open>Packets, contexts and the world\<close>

text \<open>
  The signature a recipient is registered under, and the two lambdas of the file.
  The extraction lambda of the output overload of \<^verbatim>\<open>DecorationStile\<close> has the
  capture \<^verbatim>\<open>[&master_data]\<close>: it holds a reference to the parameter object, not the
  object and not the destination. The lambda of \<^verbatim>\<open>ForwardStile\<close> has the capture
  \<^verbatim>\<open>[master_packet]\<close>: it holds the shared pointer to the master packet itself.
\<close>

datatype signature = Sig_in tid | Sig_packet

datatype recipient_fn = Copy_to pref | Forward_to pid

record recipient =
  rcpt_sig :: signature
  rcpt_fn :: recipient_fn
  delivered :: nat \<comment> \<open>how many times the engine has called it\<close>

record AutoPacket =
  decorations :: "tid \<rightharpoonup> addr"
  recipients :: "recipient list"
  finalized :: bool

record CoreContext =
  ctx_factory :: "fid option"
    \<comment> \<open>the factory visible from this context, its own or an ancestor's\<close>

text \<open>
  The lambda of \<^verbatim>\<open>Leash\<close> as a pending callback: the context it was registered with
  and the weak \<^verbatim>\<open>slave_context\<close> it captured (it also captures \<^verbatim>\<open>this\<close>, the one
  stile of the world).
\<close>

record listener =
  ln_context :: cid
  ln_captured :: "cid option"

record AutoStile =
  m_slave_factory :: "fid option" \<comment> \<open>\<^verbatim>\<open>std::weak_ptr<AutoPacketFactory>\<close>; \<open>None\<close> is the empty pointer\<close>

text \<open>
  \<^verbatim>\<open>AutoFilter\<close> takes its arguments \<^verbatim>\<open>Args... data\<close> by value: each is an object of
  the call, alive from the entry of the call to its return. The stack holds, for
  every parameter object that is alive, what the object designates: the shared
  object of a shared input, the value of an input held by value, the destination of
  an output. Dereferencing a reference to an object that is gone is undefined; the
  world records that it happened.
\<close>

record world =
  stile :: AutoStile
  heap :: "val list"
  stack :: "addr list"
  undefined_behaviour :: bool
  packets :: "AutoPacket list"
  factories :: "fid set" \<comment> \<open>the factories that are alive\<close>
  contexts :: "cid \<rightharpoonup> CoreContext" \<comment> \<open>the contexts that are alive\<close>
  listeners :: "listener list" \<comment> \<open>pending \<^verbatim>\<open>NotifyWhenAutowired\<close> callbacks\<close>

subsection \<open>Services of the engine\<close>

text \<open>
  Modelled from the spec: \<^verbatim>\<open>std::weak_ptr::lock\<close> on a factory and on a context. The
  pointer locks when it is not empty and its target is alive.
\<close>

definition lock_factory :: "world \<Rightarrow> fid option \<Rightarrow> fid option" where
  "lock_factory w r =
     (case r of None \<Rightarrow> None
      | Some f \<Rightarrow> if f \<in> factories w then Some f else None)"

definition lock_context :: "world \<Rightarrow> cid option \<Rightarrow> cid option" where
  "lock_context w r =
     (case r of None \<Rightarrow> None
      | Some c \<Rightarrow> if contexts w c \<noteq> None then Some c else None)"

text \<open>
  Modelled from the spec: \<^verbatim>\<open>AutoPacketFactory::NewPacket\<close> returns a fresh packet of
  the slave pipeline. The packet is new, so it has no decoration and no recipient.
\<close>

definition fresh_packet :: AutoPacket where
  "fresh_packet = \<lparr>decorations = Map.empty, recipients = [], finalized = False\<rparr>"

definition NewPacket :: "fid \<Rightarrow> world \<Rightarrow> pid \<times> world" where
  "NewPacket f w = (length (packets w), w\<lparr>packets := packets w @ [fresh_packet]\<rparr>)"

text \<open>
  Modelled from the spec: \<^verbatim>\<open>AutoPacket::Decorate\<close> publishes a typed value, one per
  type and packet: a type that the packet already holds is left as it is. A shared
  reference is stored as it is; a value is copied into a cell of its own.
\<close>

definition Decorate :: "pid \<Rightarrow> tid \<Rightarrow> bool \<Rightarrow> addr \<Rightarrow> world \<Rightarrow> world" where
  "Decorate p t shared a w =
     (if p < length (packets w) then
        let P = packets w ! p in
        if decorations P t \<noteq> None then w
        else if shared then
          w\<lparr>packets := (packets w)[p := P\<lparr>decorations := (decorations P)(t \<mapsto> a)\<rparr>]\<rparr>
        else if a < length (heap w) then
          w\<lparr>heap := heap w @ [heap w ! a],
            packets := (packets w)[p := P\<lparr>decorations := (decorations P)(t \<mapsto> length (heap w))\<rparr>]\<rparr>
        else w
      else w)"

text \<open>
  Modelled from the spec: \<^verbatim>\<open>AutoPacket::AddRecipient<Signature>\<close> registers a
  one-shot callback, not yet delivered.
\<close>

definition AddRecipient :: "pid \<Rightarrow> signature \<Rightarrow> recipient_fn \<Rightarrow> world \<Rightarrow> world" where
  "AddRecipient p sg fn w =
     (if p < length (packets w) then
        let P = packets w ! p in
        w\<lparr>packets := (packets w)
             [p := P\<lparr>recipients := recipients P @ [\<lparr>rcpt_sig = sg, rcpt_fn = fn, delivered = 0\<rparr>]\<rparr>]\<rparr>
      else w)"

subsection \<open>The member functions of the stile\<close>

text \<open>What a reference to a parameter object designates while the object is alive.\<close>

definition param :: "world \<Rightarrow> pref \<Rightarrow> addr option" where
  "param w r = (if r < length (stack w) then Some (stack w ! r) else None)"

text \<open>
  \<^verbatim>\<open>DecorationStile\<close>, both overloads; \<^verbatim>\<open>data_pipe& master_data\<close> is a reference to
  the parameter object of \<^verbatim>\<open>AutoFilter\<close>. The input overload decorates the slave
  packet with what \<^verbatim>\<open>master_data\<close> designates, during the call. The output overload
  registers, under the reversed orientation \<^verbatim>\<open>auto_in<id_type>\<close>, the lambda that
  assigns \<^verbatim>\<open>*slave_data\<close> to \<^verbatim>\<open>*master_data\<close>; the lambda keeps the reference.
\<close>

definition DecorationStile :: "data_pipe \<Rightarrow> pid \<Rightarrow> pid \<Rightarrow> pref \<Rightarrow> world \<Rightarrow> world" where
  "DecorationStile p slave_packet master_packet master_data w =
     (if is_input p then
        (case param w master_data of
           None \<Rightarrow> w
         | Some a \<Rightarrow> Decorate slave_packet (id_type p) (is_shared p) a w)
      else AddRecipient slave_packet (Sig_in (id_type p)) (Copy_to master_data) w)"

text \<open>\<^verbatim>\<open>ForwardStile\<close>: a recipient of the slave packet itself that forwards everything.\<close>

definition ForwardStile :: "pid \<Rightarrow> pid \<Rightarrow> world \<Rightarrow> world" where
  "ForwardStile slave_packet master_packet w =
     AddRecipient slave_packet Sig_packet (Forward_to master_packet) w"

text \<open>
  The braced initialiser \<^verbatim>\<open>{DecorationStile<Args>(...)..., false}\<close>: one call per
  member of the pack, from left to right, each with the reference to its own
  parameter object; the objects of a call lie on the stack in the order of the pack.
\<close>

fun init_pack :: "data_pipe list \<Rightarrow> pref \<Rightarrow> pid \<Rightarrow> pid \<Rightarrow> world \<Rightarrow> world" where
  "init_pack [] r slave_packet master_packet w = w"
| "init_pack (p # rest) r slave_packet master_packet w =
     init_pack rest (Suc r) slave_packet master_packet
       (DecorationStile p slave_packet master_packet r w)"

text \<open>
  \<^verbatim>\<open>AutoFilter(AutoPacket& packet, Args... data)\<close>. An argument is given with its
  declared type, so the pack \<^verbatim>\<open>Args...\<close> is \<open>map fst data\<close>. The parameter objects
  are created at the entry of the call and are gone at each of its two returns.
\<close>

definition AutoFilter :: "pid \<Rightarrow> (data_pipe \<times> addr) list \<Rightarrow> world \<Rightarrow> world" where
  "AutoFilter packet data w =
     (let base = length (stack w);
          w0 = w\<lparr>stack := stack w @ map snd data\<rparr>;
          w3 = (case lock_factory w0 (m_slave_factory (stile w0)) of
                  None \<Rightarrow> w0
                | Some slave_factory \<Rightarrow>
                    let master_packet = packet;
                        (slave_packet, w1) = NewPacket slave_factory w0;
                        w2 = init_pack (map fst data) base slave_packet master_packet w1
                    in if var_and (map (\<lambda>x. is_input (fst x)) data)
                       then ForwardStile slave_packet master_packet w2
                       else w2)
      in w3\<lparr>stack := take base (stack w3)\<rparr>)"

text \<open>
  Modelled from the spec: \<^verbatim>\<open>CoreContext::NotifyWhenAutowired<AutoPacketFactory>\<close>
  keeps the callback until the engine fires it, and \<^verbatim>\<open>FindByTypeRecursive\<close> is the
  synchronous lookup of a live factory from a context, empty when there is none.
\<close>

definition NotifyWhenAutowired :: "cid \<Rightarrow> cid option \<Rightarrow> world \<Rightarrow> world" where
  "NotifyWhenAutowired strong_context captured w =
     w\<lparr>listeners := listeners w @ [\<lparr>ln_context = strong_context, ln_captured = captured\<rparr>]\<rparr>"

definition FindByTypeRecursive :: "world \<Rightarrow> cid \<Rightarrow> fid option" where
  "FindByTypeRecursive w c =
     (case contexts w c of None \<Rightarrow> None
      | Some C \<Rightarrow> lock_factory w (ctx_factory C))"

text \<open>The lambda of \<^verbatim>\<open>Leash\<close>, with its captured \<^verbatim>\<open>slave_context\<close>.\<close>

definition Leash_lambda :: "cid option \<Rightarrow> world \<Rightarrow> world" where
  "Leash_lambda slave_context w =
     (case lock_context w slave_context of
        None \<Rightarrow> w
      | Some strong_context \<Rightarrow>
          w\<lparr>stile := (stile w)\<lparr>m_slave_factory := FindByTypeRecursive w strong_context\<rparr>\<rparr>)"

text \<open>\<^verbatim>\<open>Leash(std::weak_ptr<CoreContext> slave_context)\<close>.\<close>

definition Leash :: "cid option \<Rightarrow> world \<Rightarrow> world" where
  "Leash slave_context w =
     (let w1 = w\<lparr>stile := (stile w)\<lparr>m_slave_factory := None\<rparr>\<rparr> in
      case lock_context w1 slave_context of
        None \<Rightarrow> w1
      | Some strong_context \<Rightarrow> NotifyWhenAutowired strong_context slave_context w1)"

subsection \<open>Instantiating the template\<close>

text \<open>
  What the compiler checks when \<^verbatim>\<open>DecorationStile<data_pipe>\<close> is instantiated: the
  input overload has no condition, the output overload carries the
  \<^verbatim>\<open>static_assert\<close> that \<^verbatim>\<open>data_pipe\<close> is \<^verbatim>\<open>auto_out<id_type>\<close>.
\<close>

datatype static_error = Output_types_must_be_auto_out

definition DecorationStile_static :: "data_pipe \<Rightarrow> static_error option" where
  "DecorationStile_static p =
     (if is_input p then None
      else if p = Auto_out (id_type p) then None
      else Some Output_types_must_be_auto_out)"

text \<open>
  Instantiating \<^verbatim>\<open>AutoFilter\<close> instantiates \<^verbatim>\<open>DecorationStile\<close> for every member of
  the pack; the first failure stops the translation.
\<close>

fun AutoFilter_instantiate :: "data_pipe list \<Rightarrow> static_error + data_pipe list" where
  "AutoFilter_instantiate [] = Inr []"
| "AutoFilter_instantiate (p # ps) =
     (case DecorationStile_static p of
        Some e \<Rightarrow> Inl e
      | None \<Rightarrow> (case AutoFilter_instantiate ps of
                   Inl e \<Rightarrow> Inl e
                 | Inr qs \<Rightarrow> Inr (p # qs)))"

subsection \<open>What the engine and the pipelines do afterwards\<close>

text \<open>
  The body of the extraction lambda, \<^verbatim>\<open>*master_data = *slave_data\<close>: the contents of
  the slave's cell are assigned to the destination cell.
\<close>

definition assign_through :: "addr \<Rightarrow> addr \<Rightarrow> world \<Rightarrow> world" where
  "assign_through master_data slave_data w =
     (if slave_data < length (heap w)
      then w\<lparr>heap := (heap w)[master_data := heap w ! slave_data]\<rparr>
      else w)"

text \<open>
  Modelled from the spec: \<^verbatim>\<open>AutoPacket::ForwardAll\<close> merges the decorations of a
  packet into the target; a type that the target already holds keeps the target's
  value.
\<close>

definition ForwardAll :: "pid \<Rightarrow> pid \<Rightarrow> world \<Rightarrow> world" where
  "ForwardAll slave_packet master_packet w =
     (if slave_packet < length (packets w) \<and> master_packet < length (packets w) then
        let S = packets w ! slave_packet; M = packets w ! master_packet in
        w\<lparr>packets := (packets w)
             [master_packet := M\<lparr>decorations := decorations S ++ decorations M\<rparr>]\<rparr>
      else w)"

definition mark_delivered :: "pid \<Rightarrow> nat \<Rightarrow> world \<Rightarrow> world" where
  "mark_delivered p i w =
     (if p < length (packets w) then
        let P = packets w ! p; r = recipients P ! i in
        w\<lparr>packets := (packets w)
             [p := P\<lparr>recipients := (recipients P)[i := r\<lparr>delivered := Suc (delivered r)\<rparr>]\<rparr>]\<rparr>
      else w)"

text \<open>
  Calling the extraction lambda with \<^verbatim>\<open>slave_data\<close>: it dereferences the reference
  it captured. While the parameter object is alive this is the assignment; once the
  object is gone the behaviour is undefined and nothing is assigned.
\<close>

definition call_extraction :: "pref \<Rightarrow> addr \<Rightarrow> world \<Rightarrow> world" where
  "call_extraction master_data slave_data w =
     (case param w master_data of
        None \<Rightarrow> w\<lparr>undefined_behaviour := True\<rparr>
      | Some d \<Rightarrow> assign_through d slave_data w)"

text \<open>
  Modelled from the spec: the engine delivers a recipient once its signature is
  satisfied (the packet holds the type; for the packet itself, the packet is
  finalized), and a recipient that was delivered is never delivered again.
\<close>

definition deliver :: "pid \<Rightarrow> nat \<Rightarrow> world \<Rightarrow> world" where
  "deliver p i w =
     (if p < length (packets w) \<and> i < length (recipients (packets w ! p)) then
        let P = packets w ! p; r = recipients P ! i in
        if delivered r \<noteq> 0 then w
        else (case (rcpt_sig r, rcpt_fn r) of
                (Sig_in t, Copy_to master_data) \<Rightarrow>
                  (case decorations P t of
                     None \<Rightarrow> w
                   | Some slave_data \<Rightarrow> mark_delivered p i (call_extraction master_data slave_data w))
              | (Sig_packet, Forward_to master_packet) \<Rightarrow>
                  if finalized P then mark_delivered p i (ForwardAll p master_packet w) else w
              | _ \<Rightarrow> w)
      else w)"

definition finalize :: "pid \<Rightarrow> world \<Rightarrow> world" where
  "finalize p w =
     (if p < length (packets w)
      then w\<lparr>packets := (packets w)[p := (packets w ! p)\<lparr>finalized := True\<rparr>]\<rparr>
      else w)"

definition write_cell :: "addr \<Rightarrow> val \<Rightarrow> world \<Rightarrow> world" where
  "write_cell a v w = w\<lparr>heap := (heap w)[a := v]\<rparr>"

text \<open>
  What can happen to packets and cells after \<^verbatim>\<open>AutoFilter\<close> has returned: a pipeline
  publishes a shared value on a packet, somebody writes to a cell, the engine
  delivers a recipient, a packet is finalized.
\<close>

datatype event =
  Ev_decorate pid tid addr
| Ev_write addr val
| Ev_deliver pid nat
| Ev_finalize pid

fun step :: "event \<Rightarrow> world \<Rightarrow> world" where
  "step (Ev_decorate p t a) w = Decorate p t True a w"
| "step (Ev_write a v) w = write_cell a v w"
| "step (Ev_deliver p i) w = deliver p i w"
| "step (Ev_finalize p) w = finalize p w"

fun run :: "event list \<Rightarrow> world \<Rightarrow> world" where
  "run [] w = w"
| "run (e # es) w = run es (step e w)"

text \<open>
  Modelled from the spec: what the context registry does. A factory becomes available
  in a live context; a context is torn down; the engine fires a pending callback,
  which is then gone.
\<close>

definition autowire :: "cid \<Rightarrow> fid \<Rightarrow> world \<Rightarrow> world" where
  "autowire c f w =
     (if contexts w c \<noteq> None
      then w\<lparr>factories := insert f (factories w),
             contexts := (contexts w)(c \<mapsto> \<lparr>ctx_factory = Some f\<rparr>)\<rparr>
      else w)"

definition destroy_context :: "cid \<Rightarrow> world \<Rightarrow> world" where
  "destroy_context c w = w\<lparr>contexts := (contexts w)(c := None)\<rparr>"

definition notify :: "nat \<Rightarrow> world \<Rightarrow> world" where
  "notify i w =
     (if i < length (listeners w)
      then Leash_lambda (ln_captured (listeners w ! i))
             (w\<lparr>listeners := take i (listeners w) @ drop (Suc i) (listeners w)\<rparr>)
      else w)"

subsection \<open>Vocabulary of the properties\<close>

text \<open>The recipient that \<^verbatim>\<open>ForwardStile\<close> registers, as registered.\<close>

definition forward_recipient :: "pid \<Rightarrow> recipient" where
  "forward_recipient master_packet =
     \<lparr>rcpt_sig = Sig_packet, rcpt_fn = Forward_to master_packet, delivered = 0\<rparr>"

text \<open>The recipient that the output overload registers for a parameter, as registered.\<close>

definition extract_recipient :: "tid \<Rightarrow> pref \<Rightarrow> recipient" where
  "extract_recipient t master_data =
     \<lparr>rcpt_sig = Sig_in t, rcpt_fn = Copy_to master_data, delivered = 0\<rparr>"

text \<open>
  The recipients that a pack registers when its first parameter object is at \<open>r\<close>: one
  per declared output, in the order of the pack, each with the reference to its own
  parameter object.
\<close>

fun extraction_recipients :: "data_pipe list \<Rightarrow> pref \<Rightarrow> recipient list" where
  "extraction_recipients [] r = []"
| "extraction_recipients (p # ps) r =
     (if is_output p then [extract_recipient (id_type p) r] else [])
     @ extraction_recipients ps (Suc r)"

text \<open>
  A call that took \<open>w\<close> to \<open>w'\<close> installed the catch-all recipient when a packet that
  the call created carries it.
\<close>

definition forward_all_installed :: "pid \<Rightarrow> world \<Rightarrow> world \<Rightarrow> bool" where
  "forward_all_installed master_packet w w' =
     (\<exists>P \<in> set (drop (length (packets w)) (packets w')).
        forward_recipient master_packet \<in> set (recipients P))"

definition bound :: "world \<Rightarrow> bool" where
  "bound w = (lock_factory w (m_slave_factory (stile w)) \<noteq> None)"

text \<open>Reading a cell; a reference past the end of the store designates nothing.\<close>

definition read_cell :: "world \<Rightarrow> addr \<Rightarrow> val option" where
  "read_cell w a = (if a < length (heap w) then Some (heap w ! a) else None)"

text \<open>What a packet holds for a type: the contents of the cell its decoration designates.\<close>

definition decorated_value :: "world \<Rightarrow> pid \<Rightarrow> tid \<Rightarrow> val option" where
  "decorated_value w q t =
     (case decorations (packets w ! q) t of None \<Rightarrow> None | Some c \<Rightarrow> read_cell w c)"

subsection \<open>Three small worlds\<close>

text \<open>
  A world between calls (no parameter object is alive) with one master packet, three
  cells, and a stile that was never bound; the same world with a live factory that
  the stile refers to; and the first world with two live contexts in which no
  factory is available yet.
\<close>

definition world0 :: world where
  "world0 = \<lparr>stile = \<lparr>m_slave_factory = None\<rparr>, heap = [7, 0, 314], stack = [],
             undefined_behaviour = False, packets = [fresh_packet],
             factories = {}, contexts = Map.empty, listeners = []\<rparr>"

definition world1 :: world where
  "world1 = world0\<lparr>stile := \<lparr>m_slave_factory = Some 0\<rparr>, factories := {0}\<rparr>"

definition world2 :: world where
  "world2 = world0\<lparr>contexts := [0 \<mapsto> \<lparr>ctx_factory = None\<rparr>, 1 \<mapsto> \<lparr>ctx_factory = None\<rparr>]\<rparr>"

section \<open>Auxiliary facts\<close>

lemmas engine_defs = lock_factory_def lock_context_def NewPacket_def Decorate_def AddRecipient_def
  DecorationStile_def ForwardStile_def AutoFilter_def fresh_packet_def bound_def
  extract_recipient_def forward_recipient_def deliver_def mark_delivered_def assign_through_def
  ForwardAll_def finalize_def write_cell_def read_cell_def decorated_value_def
  param_def call_extraction_def
  NotifyWhenAutowired_def FindByTypeRecursive_def Leash_lambda_def Leash_def autowire_def
  destroy_context_def notify_def

lemmas world_defs = world0_def world1_def world2_def

subsection \<open>Traits\<close>

lemma is_input_not_output: "is_input p = (\<not> is_output p)"
  by (cases p) simp_all

subsection \<open>What the services of the engine leave alone\<close>

lemma Decorate_frame:
  "stile (Decorate p t sh a w) = stile w"
  "factories (Decorate p t sh a w) = factories w"
  "contexts (Decorate p t sh a w) = contexts w"
  "listeners (Decorate p t sh a w) = listeners w"
  "stack (Decorate p t sh a w) = stack w"
  "undefined_behaviour (Decorate p t sh a w) = undefined_behaviour w"
  "length (packets (Decorate p t sh a w)) = length (packets w)"
  by (simp_all add: Decorate_def Let_def)

lemma Decorate_recipients:
  "recipients (packets (Decorate p t sh a w) ! q) = recipients (packets w ! q)"
  by (cases "q = p") (simp_all add: Decorate_def Let_def)





lemma AddRecipient_frame:
  "stile (AddRecipient p sg fn w) = stile w"
  "factories (AddRecipient p sg fn w) = factories w"
  "contexts (AddRecipient p sg fn w) = contexts w"
  "listeners (AddRecipient p sg fn w) = listeners w"
  "stack (AddRecipient p sg fn w) = stack w"
  "undefined_behaviour (AddRecipient p sg fn w) = undefined_behaviour w"
  "heap (AddRecipient p sg fn w) = heap w"
  "length (packets (AddRecipient p sg fn w)) = length (packets w)"
  by (simp_all add: AddRecipient_def Let_def)

lemma AddRecipient_recipients:
  "recipients (packets (AddRecipient p sg fn w) ! q) =
     (if q = p \<and> p < length (packets w)
      then recipients (packets w ! q) @ [\<lparr>rcpt_sig = sg, rcpt_fn = fn, delivered = 0\<rparr>]
      else recipients (packets w ! q))"
  by (cases "q = p") (simp_all add: AddRecipient_def Let_def)



subsection \<open>One argument, then the whole pack\<close>

lemma DecorationStile_frame:
  "stile (DecorationStile p s m r w) = stile w"
  "factories (DecorationStile p s m r w) = factories w"
  "contexts (DecorationStile p s m r w) = contexts w"
  "listeners (DecorationStile p s m r w) = listeners w"
  "stack (DecorationStile p s m r w) = stack w"
  "undefined_behaviour (DecorationStile p s m r w) = undefined_behaviour w"
  "length (packets (DecorationStile p s m r w)) = length (packets w)"
  by (simp_all add: DecorationStile_def Decorate_frame AddRecipient_frame split: option.split)


lemma DecorationStile_recipients:
  "s < length (packets w) \<Longrightarrow>
   recipients (packets (DecorationStile p s m r w) ! s) =
     recipients (packets w ! s) @ (if is_output p then [extract_recipient (id_type p) r] else [])"
  by (simp add: DecorationStile_def Decorate_recipients AddRecipient_recipients
      extract_recipient_def is_input_not_output split: option.split)




lemma init_pack_frame:
  "stile (init_pack ps r s m w) = stile w \<and>
   factories (init_pack ps r s m w) = factories w \<and>
   contexts (init_pack ps r s m w) = contexts w \<and>
   listeners (init_pack ps r s m w) = listeners w \<and>
   stack (init_pack ps r s m w) = stack w \<and>
   undefined_behaviour (init_pack ps r s m w) = undefined_behaviour w \<and>
   length (packets (init_pack ps r s m w)) = length (packets w)"
  by (induction ps r s m w rule: init_pack.induct) (simp_all add: DecorationStile_frame)


lemma init_pack_recipients:
  "s < length (packets w) \<Longrightarrow>
   recipients (packets (init_pack ps r s m w) ! s) =
     recipients (packets w ! s) @ extraction_recipients ps r"
  by (induction ps r s m w rule: init_pack.induct)
     (simp_all add: DecorationStile_recipients DecorationStile_frame)




lemma extraction_recipients_append:
  "extraction_recipients (xs @ ys) r =
     extraction_recipients xs r @ extraction_recipients ys (r + length xs)"
  by (induction xs arbitrary: r) simp_all

lemma extraction_recipients_length:
  "length (extraction_recipients ps r) = length (filter is_output ps)"
  by (induction ps arbitrary: r) simp_all

lemma extraction_recipients_no_forward:
  "forward_recipient m \<notin> set (extraction_recipients ps r)"
  by (induction ps arbitrary: r) (simp_all add: extract_recipient_def forward_recipient_def)

subsection \<open>The call as a whole\<close>

lemma var_and_inputs:
  "var_and (map (\<lambda>x. is_input (fst x)) data) = (filter is_output (map fst data) = [])"
  by (induction data) (auto simp add: is_input_not_output)

lemma ForwardStile_frame:
  "stile (ForwardStile s m w) = stile w"
  "factories (ForwardStile s m w) = factories w"
  "contexts (ForwardStile s m w) = contexts w"
  "listeners (ForwardStile s m w) = listeners w"
  "stack (ForwardStile s m w) = stack w"
  "undefined_behaviour (ForwardStile s m w) = undefined_behaviour w"
  "heap (ForwardStile s m w) = heap w"
  "length (packets (ForwardStile s m w)) = length (packets w)"
  by (simp_all add: ForwardStile_def AddRecipient_frame)

lemma bound_entry: "bound (w\<lparr>stack := st\<rparr>) = bound w"
  by (simp add: bound_def lock_factory_def split: option.split)

lemma AutoFilter_unbound: "\<not> bound w \<Longrightarrow> AutoFilter packet data w = w"
proof -
  assume "\<not> bound w"
  then have "lock_factory (w\<lparr>stack := stack w @ map snd data\<rparr>)
               (m_slave_factory (stile (w\<lparr>stack := stack w @ map snd data\<rparr>))) = None"
    using bound_entry [where w = w and st = "stack w @ map snd data"] by (simp add: bound_def)
  then show ?thesis by (simp add: AutoFilter_def Let_def)
qed

text \<open>The world of a bound call before its return: the parameter objects are still alive.\<close>

lemma AutoFilter_bound:
  assumes "bound w"
  shows "AutoFilter packet data w =
     (let w2 = init_pack (map fst data) (length (stack w)) (length (packets w)) packet
                 (w\<lparr>stack := stack w @ map snd data, packets := packets w @ [fresh_packet]\<rparr>);
          w3 = (if filter is_output (map fst data) = []
                then ForwardStile (length (packets w)) packet w2 else w2)
      in w3\<lparr>stack := stack w\<rparr>)"
proof -
  from assms obtain f where
    "lock_factory (w\<lparr>stack := stack w @ map snd data\<rparr>)
       (m_slave_factory (stile (w\<lparr>stack := stack w @ map snd data\<rparr>))) = Some f"
    using bound_entry [where w = w and st = "stack w @ map snd data"] by (auto simp add: bound_def)
  then show ?thesis
    by (simp add: AutoFilter_def NewPacket_def var_and_inputs Let_def ForwardStile_frame
        init_pack_frame)
qed

lemma AutoFilter_stile: "stile (AutoFilter packet data w) = stile w"
  by (cases "bound w")
     (simp_all add: AutoFilter_bound AutoFilter_unbound ForwardStile_frame init_pack_frame Let_def)

lemma AutoFilter_frame:
  "factories (AutoFilter packet data w) = factories w \<and>
   contexts (AutoFilter packet data w) = contexts w \<and>
   listeners (AutoFilter packet data w) = listeners w \<and>
   stack (AutoFilter packet data w) = stack w \<and>
   undefined_behaviour (AutoFilter packet data w) = undefined_behaviour w"
  by (cases "bound w")
     (simp_all add: AutoFilter_bound AutoFilter_unbound ForwardStile_frame init_pack_frame Let_def)

lemma AutoFilter_length:
  "bound w \<Longrightarrow> length (packets (AutoFilter packet data w)) = Suc (length (packets w))"
  by (simp add: AutoFilter_bound ForwardStile_frame init_pack_frame Let_def)


lemma AutoFilter_recipients:
  assumes "bound w"
  shows "recipients (packets (AutoFilter packet data w) ! length (packets w)) =
     extraction_recipients (map fst data) (length (stack w))
     @ (if filter is_output (map fst data) = [] then [forward_recipient packet] else [])"
  using assms
  by (simp add: AutoFilter_bound ForwardStile_def AddRecipient_recipients init_pack_frame
      init_pack_recipients fresh_packet_def forward_recipient_def Let_def)


lemma AutoFilter_empty:
  "bound w \<Longrightarrow> AutoFilter packet [] w =
     w\<lparr>packets := packets w @ [fresh_packet\<lparr>recipients := [forward_recipient packet]\<rparr>]\<rparr>"
  by (simp add: AutoFilter_bound ForwardStile_def AddRecipient_def forward_recipient_def
      fresh_packet_def Let_def)

lemma forward_all_installed_iff:
  "forward_all_installed packet w (AutoFilter packet data w) =
     (bound w \<and> filter (\<lambda>x. is_output (fst x)) data = [])"
proof (cases "bound w")
  case True
  let ?w' = "AutoFilter packet data w"
  have len: "length (packets ?w') = Suc (length (packets w))" by (rule AutoFilter_length [OF True])
  have d: "drop (length (packets w)) (packets ?w') = [packets ?w' ! length (packets w)]"
    using len by (metis Cons_nth_drop_Suc drop_all lessI order_refl)
  have f: "filter is_output (map fst data) = [] \<longleftrightarrow> filter (\<lambda>x. is_output (fst x)) data = []"
    by (induction data) auto
  show ?thesis using True
    by (simp add: forward_all_installed_def d AutoFilter_recipients [OF True]
        extraction_recipients_no_forward f)
next
  case False
  then show ?thesis
    by (simp add: forward_all_installed_def AutoFilter_unbound)
qed

subsection \<open>Delivery and the later events\<close>

lemma nth_update_same_or:
  "(xs[i := f (xs ! i)]) ! j = (if j = i \<and> i < length xs then f (xs ! i) else xs ! j)"
  by (cases "i < length xs") (auto simp add: nth_list_update list_update_beyond)

lemma assign_through_frame:
  "packets (assign_through d s w) = packets w" "stack (assign_through d s w) = stack w"
  by (simp_all add: assign_through_def)

lemma call_extraction_frame:
  "packets (call_extraction r s w) = packets w" "stack (call_extraction r s w) = stack w"
  by (simp_all add: call_extraction_def assign_through_frame split: option.split)

lemma ForwardAll_stack: "stack (ForwardAll s m w) = stack w"
  by (simp add: ForwardAll_def Let_def)

lemma mark_delivered_stack: "stack (mark_delivered p i w) = stack w"
  by (simp add: mark_delivered_def Let_def)

lemma mark_delivered_undefined:
  "undefined_behaviour (mark_delivered p i w) = undefined_behaviour w"
  by (simp add: mark_delivered_def Let_def)

lemma ForwardAll_length: "length (packets (ForwardAll s m w)) = length (packets w)"
  by (simp add: ForwardAll_def Let_def)

lemma ForwardAll_recipients:
  "recipients (packets (ForwardAll s m w) ! q) = recipients (packets w ! q)"
  by (cases "q = m") (simp_all add: ForwardAll_def Let_def)


lemma mark_delivered_length: "length (packets (mark_delivered p i w)) = length (packets w)"
  by (simp add: mark_delivered_def Let_def)

lemma mark_delivered_decorations:
  "decorations (packets (mark_delivered p i w) ! q) = decorations (packets w ! q)"
  by (cases "q = p") (simp_all add: mark_delivered_def Let_def)

lemma mark_delivered_heap: "heap (mark_delivered p i w) = heap w"
  by (simp add: mark_delivered_def Let_def)

lemma mark_delivered_recipients:
  "recipients (packets (mark_delivered p i w) ! q) =
     (if q = p \<and> p < length (packets w)
      then (recipients (packets w ! p))[i := (recipients (packets w ! p) ! i)\<lparr>delivered := Suc (delivered (recipients (packets w ! p) ! i))\<rparr>]
      else recipients (packets w ! q))"
  by (cases "q = p") (simp_all add: mark_delivered_def Let_def)

lemma mark_delivered_nth:
  "recipients (packets (mark_delivered p i w) ! q) ! j =
     (if q = p \<and> p < length (packets w) \<and> j = i \<and> i < length (recipients (packets w ! p))
      then (recipients (packets w ! p) ! i)\<lparr>delivered := Suc (delivered (recipients (packets w ! p) ! i))\<rparr>
      else recipients (packets w ! q) ! j)"
  by (simp add: mark_delivered_recipients nth_update_same_or [where f = "\<lambda>r. r\<lparr>delivered := Suc (delivered r)\<rparr>"])

lemma mark_delivered_rlength:
  "length (recipients (packets (mark_delivered p i w) ! q)) = length (recipients (packets w ! q))"
  by (simp add: mark_delivered_recipients)

lemma deliver_cases:
  "deliver p i w = w
   \<or> (\<exists>t d s. p < length (packets w) \<and> i < length (recipients (packets w ! p))
        \<and> delivered (recipients (packets w ! p) ! i) = 0
        \<and> rcpt_sig (recipients (packets w ! p) ! i) = Sig_in t
        \<and> rcpt_fn (recipients (packets w ! p) ! i) = Copy_to d
        \<and> decorations (packets w ! p) t = Some s
        \<and> deliver p i w = mark_delivered p i (call_extraction d s w))
   \<or> (\<exists>m. p < length (packets w) \<and> i < length (recipients (packets w ! p))
        \<and> delivered (recipients (packets w ! p) ! i) = 0
        \<and> rcpt_sig (recipients (packets w ! p) ! i) = Sig_packet
        \<and> rcpt_fn (recipients (packets w ! p) ! i) = Forward_to m
        \<and> finalized (packets w ! p)
        \<and> deliver p i w = mark_delivered p i (ForwardAll p m w))"
  by (simp add: deliver_def Let_def split: signature.splits recipient_fn.splits option.splits)

lemma deliver_length: "length (packets (deliver p i w)) = length (packets w)"
  using deliver_cases [of p i w]
  by (auto simp add: mark_delivered_length call_extraction_frame ForwardAll_length)

lemma deliver_rlength:
  "length (recipients (packets (deliver p i w) ! q)) = length (recipients (packets w ! q))"
  using deliver_cases [of p i w]
  by (auto simp add: mark_delivered_rlength call_extraction_frame ForwardAll_recipients
      ForwardAll_length)

lemma deliver_sig:
  "rcpt_sig (recipients (packets (deliver p i w) ! q) ! j) = rcpt_sig (recipients (packets w ! q) ! j)"
  using deliver_cases [of p i w]
  by (auto simp add: mark_delivered_nth call_extraction_frame ForwardAll_recipients
      ForwardAll_length)

lemma deliver_fn:
  "rcpt_fn (recipients (packets (deliver p i w) ! q) ! j) = rcpt_fn (recipients (packets w ! q) ! j)"
  using deliver_cases [of p i w]
  by (auto simp add: mark_delivered_nth call_extraction_frame ForwardAll_recipients
      ForwardAll_length)

lemma deliver_delivered:
  "delivered (recipients (packets w ! q) ! j) \<le> Suc 0 \<Longrightarrow>
   delivered (recipients (packets (deliver p i w) ! q) ! j) \<le> Suc 0"
  using deliver_cases [of p i w]
  by (auto simp add: mark_delivered_nth call_extraction_frame ForwardAll_recipients
      ForwardAll_length)


lemma finalize_facts:
  "length (packets (finalize p w)) = length (packets w)"
  "recipients (packets (finalize p w) ! q) = recipients (packets w ! q)"
  "decorations (packets (finalize p w) ! q) = decorations (packets w ! q)"
  by (simp_all add: finalize_def nth_update_same_or [where f = "\<lambda>P. P\<lparr>finalized := True\<rparr>"])

lemma write_cell_packets: "packets (write_cell a v w) = packets w"
  by (simp add: write_cell_def)

lemma step_length: "length (packets (step e w)) = length (packets w)"
  by (cases e) (simp_all add: Decorate_frame write_cell_packets deliver_length finalize_facts)

lemma step_rlength:
  "length (recipients (packets (step e w) ! q)) = length (recipients (packets w ! q))"
  by (cases e) (simp_all add: Decorate_recipients write_cell_packets deliver_rlength finalize_facts)

lemma step_sig:
  "rcpt_sig (recipients (packets (step e w) ! q) ! j) = rcpt_sig (recipients (packets w ! q) ! j)"
  by (cases e) (simp_all add: Decorate_recipients write_cell_packets deliver_sig finalize_facts)

lemma step_fn:
  "rcpt_fn (recipients (packets (step e w) ! q) ! j) = rcpt_fn (recipients (packets w ! q) ! j)"
  by (cases e) (simp_all add: Decorate_recipients write_cell_packets deliver_fn finalize_facts)

lemma step_delivered:
  "delivered (recipients (packets w ! q) ! j) \<le> Suc 0 \<Longrightarrow>
   delivered (recipients (packets (step e w) ! q) ! j) \<le> Suc 0"
  by (cases e) (simp_all add: Decorate_recipients write_cell_packets deliver_delivered finalize_facts)


lemma run_length: "length (packets (run es w)) = length (packets w)"
  by (induction es arbitrary: w) (simp_all add: step_length)

lemma run_rlength:
  "length (recipients (packets (run es w) ! q)) = length (recipients (packets w ! q))"
  by (induction es arbitrary: w) (simp_all add: step_rlength)

lemma run_sig:
  "rcpt_sig (recipients (packets (run es w) ! q) ! j) = rcpt_sig (recipients (packets w ! q) ! j)"
  by (induction es arbitrary: w) (simp_all add: step_sig)

lemma run_fn:
  "rcpt_fn (recipients (packets (run es w) ! q) ! j) = rcpt_fn (recipients (packets w ! q) ! j)"
  by (induction es arbitrary: w) (simp_all add: step_fn)

lemma run_delivered:
  "delivered (recipients (packets w ! q) ! j) \<le> Suc 0 \<Longrightarrow>
   delivered (recipients (packets (run es w) ! q) ! j) \<le> Suc 0"
  by (induction es arbitrary: w) (simp_all add: step_delivered)

lemma deliver_stack: "stack (deliver p i w) = stack w"
  using deliver_cases [of p i w]
  by (auto simp add: mark_delivered_stack call_extraction_frame ForwardAll_stack)

lemma step_stack: "stack (step e w) = stack w"
  by (cases e) (simp_all add: Decorate_frame write_cell_def deliver_stack finalize_def)

lemma run_stack: "stack (run es w) = stack w"
  by (induction es arbitrary: w) (simp_all add: step_stack)


subsection \<open>The decoration an input leaves on the slave packet\<close>















subsection \<open>The recipient an output leaves on the slave packet\<close>

lemma deliver_extract:
  assumes "q < length (packets w)" and "i < length (recipients (packets w ! q))"
      and "rcpt_sig (recipients (packets w ! q) ! i) = Sig_in t"
      and "rcpt_fn (recipients (packets w ! q) ! i) = Copy_to r"
      and "delivered (recipients (packets w ! q) ! i) = 0"
      and "decorations (packets w ! q) t = Some s"
  shows "deliver q i w = mark_delivered q i (call_extraction r s w)"
  using assms by (simp add: deliver_def Let_def)

lemma deliver_forward:
  assumes "q < length (packets w)" and "i < length (recipients (packets w ! q))"
      and "rcpt_sig (recipients (packets w ! q) ! i) = Sig_packet"
      and "rcpt_fn (recipients (packets w ! q) ! i) = Forward_to m"
      and "delivered (recipients (packets w ! q) ! i) = 0"
      and "finalized (packets w ! q)"
  shows "deliver q i w = mark_delivered q i (ForwardAll q m w)"
  using assms by (simp add: deliver_def Let_def)

lemma deliver_again:
  "delivered (recipients (packets w ! q) ! i) \<noteq> 0 \<Longrightarrow> deliver q i w = w"
  by (simp add: deliver_def Let_def)

lemma ForwardAll_decorations:
  "q < length (packets w) \<Longrightarrow> m < length (packets w) \<Longrightarrow>
   decorations (packets (ForwardAll q m w) ! m) = decorations (packets w ! q) ++ decorations (packets w ! m)"
  by (simp add: ForwardAll_def Let_def)

lemma call_extraction_dead:
  "param w r = None \<Longrightarrow> call_extraction r s w = w\<lparr>undefined_behaviour := True\<rparr>"
  by (simp add: call_extraction_def)

lemma param_after_return:
  "param (run es (AutoFilter packet data w)) (length (stack w) + n) = None"
  by (simp add: param_def run_stack AutoFilter_frame)

lemma outputs_index:
  assumes "is_output p"
  shows "length (filter is_output (map fst pre))
           < length (extraction_recipients (map fst (pre @ (p, d) # post)) b)
    \<and> extraction_recipients (map fst (pre @ (p, d) # post)) b
        ! length (filter is_output (map fst pre)) = extract_recipient (id_type p) (b + length pre)"
  using assms
  by (simp add: extraction_recipients_append extraction_recipients_length nth_append)

lemma output_recipients:
  assumes "bound w" and "data = pre @ (p, d) # post" and "is_output p"
  shows "recipients (packets (AutoFilter packet data w) ! length (packets w)) =
           extraction_recipients (map fst data) (length (stack w))"
  using assms by (simp add: AutoFilter_recipients)

lemma output_recipient_nth:
  assumes "bound w" and "data = pre @ (p, d) # post" and "is_output p"
  shows "length (filter is_output (map fst pre))
           < length (recipients (packets (AutoFilter packet data w) ! length (packets w)))
       \<and> recipients (packets (AutoFilter packet data w) ! length (packets w))
           ! length (filter is_output (map fst pre))
         = extract_recipient (id_type p) (length (stack w) + length pre)"
  using outputs_index [OF assms(3), of pre d post "length (stack w)"]
    output_recipients [OF assms, of packet]
  by (simp add: assms(2))

lemma output_recipient_later:
  fixes packet :: pid and es :: "event list"
  assumes "bound w" and "data = pre @ (p, d) # post" and "is_output p"
  defines "i \<equiv> length (filter is_output (map fst pre))"
  defines "r \<equiv> recipients (packets (run es (AutoFilter packet data w)) ! length (packets w)) ! i"
  shows "length (packets w) < length (packets (run es (AutoFilter packet data w)))"
    and "i < length (recipients (packets (run es (AutoFilter packet data w)) ! length (packets w)))"
    and "rcpt_sig r = Sig_in (id_type p)"
    and "rcpt_fn r = Copy_to (length (stack w) + length pre)"
    and "delivered r \<le> Suc 0"
proof -
  note nth = output_recipient_nth [OF assms(1-3), of packet, folded i_def]
  show "length (packets w) < length (packets (run es (AutoFilter packet data w)))"
    by (simp add: run_length AutoFilter_length [OF assms(1)])
  show "i < length (recipients (packets (run es (AutoFilter packet data w)) ! length (packets w)))"
    using nth by (simp add: run_rlength)
  show "rcpt_sig r = Sig_in (id_type p)"
    using nth by (simp add: r_def run_sig extract_recipient_def)
  show "rcpt_fn r = Copy_to (length (stack w) + length pre)"
    using nth by (simp add: r_def run_fn extract_recipient_def)
  have "delivered (recipients (packets (AutoFilter packet data w) ! length (packets w)) ! i) \<le> Suc 0"
    using nth by (simp add: extract_recipient_def)
  then show "delivered r \<le> Suc 0" unfolding r_def by (rule run_delivered)
qed

subsection \<open>Instantiation\<close>

lemma DecorationStile_static_iff:
  "(DecorationStile_static p = None) = (is_output p \<longrightarrow> p = Auto_out (id_type p))"
  by (simp add: DecorationStile_static_def is_input_not_output)

lemma instantiate_Inr:
  "(AutoFilter_instantiate Args = Inr qs) =
     (qs = Args \<and> (\<forall>p\<in>set Args. is_output p \<longrightarrow> p = Auto_out (id_type p)))"
proof (induction Args arbitrary: qs)
  case Nil
  show ?case by auto
next
  case (Cons p ps)
  show ?case
  proof (cases "DecorationStile_static p")
    case None
    then have ok: "is_output p \<longrightarrow> p = Auto_out (id_type p)"
      by (simp add: DecorationStile_static_iff)
    show ?thesis
    proof (cases "AutoFilter_instantiate ps")
      case (Inl e)
      with Cons.IH [of ps] have "\<not> (\<forall>p\<in>set ps. is_output p \<longrightarrow> p = Auto_out (id_type p))"
        by simp
      with None Inl show ?thesis by auto
    next
      case (Inr rs)
      with Cons.IH [of rs] have "rs = ps" and "\<forall>p\<in>set ps. is_output p \<longrightarrow> p = Auto_out (id_type p)"
        by simp_all
      with None Inr ok show ?thesis by auto
    qed
  next
    case (Some e)
    then have "\<not> (is_output p \<longrightarrow> p = Auto_out (id_type p))"
      using DecorationStile_static_iff [of p] by simp
    with Some show ?thesis by auto
  qed
qed

subsection \<open>Binding and the pending callbacks\<close>

lemma lock_context_cong:
  "contexts w' = contexts w \<Longrightarrow> lock_context w' r = lock_context w r"
  by (simp add: lock_context_def split: option.split)

lemma FindByTypeRecursive_cong:
  "contexts w' = contexts w \<Longrightarrow> factories w' = factories w \<Longrightarrow>
   FindByTypeRecursive w' c = FindByTypeRecursive w c"
  by (simp add: FindByTypeRecursive_def lock_factory_def split: option.split)

lemma Leash_frame:
  "contexts (Leash B w) = contexts w" "factories (Leash B w) = factories w"
  "heap (Leash B w) = heap w" "packets (Leash B w) = packets w"
  by (simp_all add: Leash_def NotifyWhenAutowired_def Let_def split: option.split)

lemma Leash_cleared: "m_slave_factory (stile (Leash B w)) = None"
  by (simp add: Leash_def NotifyWhenAutowired_def Let_def split: option.split)

lemma Leash_listeners:
  "listeners (Leash B w) =
     listeners w @ (case lock_context w B of None \<Rightarrow> []
                    | Some c \<Rightarrow> [\<lparr>ln_context = c, ln_captured = B\<rparr>])"
  by (simp add: Leash_def NotifyWhenAutowired_def Let_def lock_context_def split: option.split)

lemma Leash_lambda_dead: "lock_context w c = None \<Longrightarrow> Leash_lambda c w = w"
  by (simp add: Leash_lambda_def)

lemma notify_stile:
  assumes "i < length (listeners w)" and "ln_captured (listeners w ! i) = Some A"
  shows "m_slave_factory (stile (notify i w)) =
           (if contexts w A \<noteq> None then FindByTypeRecursive w A else m_slave_factory (stile w))"
  using assms
  by (simp add: notify_def Leash_lambda_def lock_context_def FindByTypeRecursive_def lock_factory_def
      split: option.split)

lemma notify_dead:
  assumes "i < length (listeners w)" and "lock_context w (ln_captured (listeners w ! i)) = None"
  shows "notify i w = w\<lparr>listeners := take i (listeners w) @ drop (Suc i) (listeners w)\<rparr>"
proof -
  have "lock_context (w\<lparr>listeners := take i (listeners w) @ drop (Suc i) (listeners w)\<rparr>)
          (ln_captured (listeners w ! i)) = None"
    using assms(2) lock_context_cong [of "w\<lparr>listeners := take i (listeners w) @ drop (Suc i) (listeners w)\<rparr>" w]
    by simp
  then show ?thesis using assms(1) by (simp add: notify_def Leash_lambda_dead)
qed

lemma notify_frame:
  "contexts (notify i w) = contexts w" "factories (notify i w) = factories w"
  "listeners (notify i w) =
     (if i < length (listeners w) then take i (listeners w) @ drop (Suc i) (listeners w)
      else listeners w)"
  by (simp_all add: notify_def Leash_lambda_def split: option.split)

lemma autowire_frame:
  "listeners (autowire c f w) = listeners w"
  "stile (autowire c f w) = stile w"
  "contexts (autowire c f w) =
     (if contexts w c \<noteq> None then (contexts w)(c \<mapsto> \<lparr>ctx_factory = Some f\<rparr>) else contexts w)"
  "factories (autowire c f w) =
     (if contexts w c \<noteq> None then insert f (factories w) else factories w)"
  by (simp_all add: autowire_def)

lemma two_binds:
  "listeners (Leash (Some 1) (Leash (Some 0) world2)) =
     [\<lparr>ln_context = 0, ln_captured = Some 0\<rparr>, \<lparr>ln_context = 1, ln_captured = Some 1\<rparr>]"
  "contexts (Leash (Some 1) (Leash (Some 0) world2)) = contexts world2"
  "factories (Leash (Some 1) (Leash (Some 0) world2)) = {}"
  by (simp_all add: Leash_listeners Leash_frame lock_context_def world_defs)

lemma world1_facts:
  "bound world1" "length (packets world1) = 1" "packets world1 = [fresh_packet]"
  "heap world1 = [7, 0, 314]" "stack world1 = []"
  by (simp_all add: bound_def lock_factory_def world_defs)

section \<open>Properties\<close>

subsection \<open>An unbound stile does nothing\<close>

text \<open>
  C1. When the weak reference to the slave factory does not lock, \<^verbatim>\<open>AutoFilter\<close>
  returns the world it was given, whatever the master packet and the arguments: no
  packet is created, nothing is decorated or registered, nothing else changes.
\<close>

theorem AutoFilter_unbound_noop:
  assumes "lock_factory w (m_slave_factory (stile w)) = None"
  shows "AutoFilter packet data w = w"
  using assms by (simp add: AutoFilter_unbound bound_def)

theorem AutoFilter_unbound_noop_witness:
  "lock_factory world0 (m_slave_factory (stile world0)) = None
   \<and> AutoFilter 0 [(Shared_in 3, 0)] world0 = world0"
proof -
  have h: "lock_factory world0 (m_slave_factory (stile world0)) = None"
    by (simp add: lock_factory_def world0_def)
  from AutoFilter_unbound_noop [OF h] h show ?thesis by simp
qed

subsection \<open>When the catch-all recipient is installed\<close>

text \<open>
  C2. For every declared parameter list, a call of \<^verbatim>\<open>AutoFilter\<close> that reaches the
  slave factory (the stile is bound) installs the catch-all recipient on the slave
  packet it creates if and only if the list declares no output; one declared output
  suppresses it.
\<close>

theorem forward_all_iff_no_output:
  assumes "bound w"
  shows "forward_all_installed packet w (AutoFilter packet data w) =
           (filter (\<lambda>x. is_output (fst x)) data = [])"
  using assms by (simp add: forward_all_installed_iff)

theorem forward_all_iff_no_output_witness:
  "bound world1
   \<and> forward_all_installed 0 world1 (AutoFilter 0 [(Shared_in 3, 0)] world1)
   \<and> \<not> forward_all_installed 0 world1 (AutoFilter 0 [(Shared_in 3, 0), (Auto_out 5, 1)] world1)"
  using forward_all_iff_no_output [OF world1_facts(1), of 0 "[(Shared_in 3, 0)]"]
    forward_all_iff_no_output [OF world1_facts(1), of 0 "[(Shared_in 3, 0), (Auto_out 5, 1)]"]
    world1_facts(1)
  by simp

subsection \<open>The stile itself is not changed by a call\<close>

text \<open>
  C9. \<^verbatim>\<open>AutoFilter\<close> leaves the stile, whose only field is the factory reference, as
  it was, bound or not, and the reference locks after the call exactly as before.
\<close>

theorem AutoFilter_keeps_stile:
  "stile (AutoFilter packet data w) = stile w
   \<and> lock_factory (AutoFilter packet data w) (m_slave_factory (stile (AutoFilter packet data w)))
       = lock_factory w (m_slave_factory (stile w))"
  by (simp add: AutoFilter_stile AutoFilter_frame lock_factory_def split: option.split)

subsection \<open>No declared parameter\<close>

text \<open>
  C8. For a bound stile declared with no parameter, \<^verbatim>\<open>AutoFilter\<close> adds one fresh slave
  packet whose only recipient is the catch-all one and changes nothing else; the
  AND over the empty pack is true. After any later events, once the slave packet is
  finalized and the recipient is delivered, the master packet holds every decoration
  of the slave packet next to its own (its own value where both hold a type).
\<close>

theorem no_parameters_forward_all:
  assumes "bound w"
  shows "AutoFilter packet [] w =
           w\<lparr>packets := packets w @ [fresh_packet\<lparr>recipients := [forward_recipient packet]\<rparr>]\<rparr>
       \<and> var_and (map (\<lambda>x. is_input (fst x)) ([] :: (data_pipe \<times> addr) list))
       \<and> (\<forall>es. let w' = run es (AutoFilter packet [] w); slave = length (packets w) in
             packet < length (packets w) \<and> finalized (packets w' ! slave)
               \<and> delivered (recipients (packets w' ! slave) ! 0) = 0 \<longrightarrow>
             decorations (packets (deliver slave 0 w') ! packet)
               = decorations (packets w' ! slave) ++ decorations (packets w' ! packet))"
proof (intro conjI allI)
  show eq: "AutoFilter packet [] w =
           w\<lparr>packets := packets w @ [fresh_packet\<lparr>recipients := [forward_recipient packet]\<rparr>]\<rparr>"
    by (rule AutoFilter_empty [OF assms])
  show "var_and (map (\<lambda>x. is_input (fst x)) ([] :: (data_pipe \<times> addr) list))" by simp
  fix es
  define w' where "w' = run es (AutoFilter packet [] w)"
  define slave where "slave = length (packets w)"
  have rec0: "recipients (packets (AutoFilter packet [] w) ! slave) = [forward_recipient packet]"
    by (simp add: eq slave_def fresh_packet_def)
  have len: "length (packets w') = Suc (length (packets w))"
    by (simp add: w'_def run_length eq)
  have rl: "0 < length (recipients (packets w' ! slave))"
    by (simp add: w'_def run_rlength rec0)
  have sg: "rcpt_sig (recipients (packets w' ! slave) ! 0) = Sig_packet"
    by (simp add: w'_def run_sig rec0 forward_recipient_def)
  have fn: "rcpt_fn (recipients (packets w' ! slave) ! 0) = Forward_to packet"
    by (simp add: w'_def run_fn rec0 forward_recipient_def)
  have main: "packet < length (packets w) \<and> finalized (packets w' ! slave)
               \<and> delivered (recipients (packets w' ! slave) ! 0) = 0 \<longrightarrow>
             decorations (packets (deliver slave 0 w') ! packet)
               = decorations (packets w' ! slave) ++ decorations (packets w' ! packet)"
  proof
    assume h: "packet < length (packets w) \<and> finalized (packets w' ! slave)
               \<and> delivered (recipients (packets w' ! slave) ! 0) = 0"
    have s: "slave < length (packets w')" and m: "packet < length (packets w')"
      using h len by (simp_all add: slave_def)
    from h have fin: "finalized (packets w' ! slave)"
      and d0: "delivered (recipients (packets w' ! slave) ! 0) = 0" by simp_all
    have "deliver slave 0 w' = mark_delivered slave 0 (ForwardAll slave packet w')"
      by (rule deliver_forward [OF s rl sg fn d0 fin])
    then show "decorations (packets (deliver slave 0 w') ! packet)
               = decorations (packets w' ! slave) ++ decorations (packets w' ! packet)"
      by (simp add: mark_delivered_decorations ForwardAll_decorations [OF s m])
  qed
  then show "let w' = run es (AutoFilter packet [] w); slave = length (packets w) in
             packet < length (packets w) \<and> finalized (packets w' ! slave)
               \<and> delivered (recipients (packets w' ! slave) ! 0) = 0 \<longrightarrow>
             decorations (packets (deliver slave 0 w') ! packet)
               = decorations (packets w' ! slave) ++ decorations (packets w' ! packet)"
    unfolding Let_def w'_def slave_def .
qed

theorem no_parameters_forward_all_witness:
  "bound world1
   \<and> AutoFilter 0 [] world1
       = world1\<lparr>packets := [fresh_packet, fresh_packet\<lparr>recipients := [forward_recipient 0]\<rparr>]\<rparr>
   \<and> decorations (packets (deliver 1 0 (run [Ev_decorate 1 5 2, Ev_finalize 1] (AutoFilter 0 [] world1))) ! 0) 5
       = Some 2"
proof -
  let ?w' = "run [Ev_decorate 1 5 2, Ev_finalize 1] (AutoFilter 0 [] world1)"
  note t = no_parameters_forward_all [OF world1_facts(1), of 0]
  note t1 = t [THEN conjunct1]
  note t3 = t [THEN conjunct2, THEN conjunct2, THEN spec, of "[Ev_decorate 1 5 2, Ev_finalize 1]",
      unfolded Let_def world1_facts(2)]
  have w': "?w' = world1\<lparr>packets := [fresh_packet,
      \<lparr>decorations = [5 \<mapsto> 2], recipients = [forward_recipient 0], finalized = True\<rparr>]\<rparr>"
    by (simp add: engine_defs world_defs)
  have f: "finalized (packets ?w' ! 1)" "delivered (recipients (packets ?w' ! 1) ! 0) = 0"
    "decorations (packets ?w' ! 1) 5 = Some 2" "decorations (packets ?w' ! 0) 5 = None"
    unfolding w' by (simp_all add: forward_recipient_def world_defs fresh_packet_def)
  have "(0::nat) < 1" by simp
  with t3 f(1,2) have "decorations (packets (deliver 1 0 ?w') ! 0)
          = decorations (packets ?w' ! 1) ++ decorations (packets ?w' ! 0)"
    by blast
  then have "decorations (packets (deliver 1 0 ?w') ! 0) 5 = Some 2"
    using f(3,4) by (simp add: map_add_def)
  with t1 world1_facts show ?thesis by simp
qed

subsection \<open>Inputs\<close>



subsection \<open>Outputs\<close>

text \<open>
  C6. For a bound stile the recipients of the slave packet at the return of
  \<^verbatim>\<open>AutoFilter\<close> are exactly one extraction recipient per declared output, in order.
  The recipient of an output is registered under \<^verbatim>\<open>auto_in\<close> of the same value type
  and, after any later events, has been delivered at most once; delivering it again
  does nothing. What it holds, though, is the reference to the parameter object of
  the call, and that object is gone when the call has returned. So when the
  recipient is delivered, the lambda dereferences a dead reference: the delivery
  copies nothing, the store is as it was, and the behaviour is undefined. The code
  does not make the copy into the master's destination that the spec asks for; its
  own comment speaks of the lambda holding the parameter, not a reference to it.
\<close>

theorem output_extraction_dangling:
  assumes "bound w" and "data = pre @ (p, d) # post" and "is_output p"
  shows "recipients (packets (AutoFilter packet data w) ! length (packets w))
           = extraction_recipients (map fst data) (length (stack w))
       \<and> length (recipients (packets (AutoFilter packet data w) ! length (packets w)))
           = length (filter is_output (map fst data))
       \<and> (\<forall>es. let w' = run es (AutoFilter packet data w);
                    slave = length (packets w);
                    i = length (filter is_output (map fst pre));
                    r = recipients (packets w' ! slave) ! i
                in rcpt_sig r = Sig_in (id_type p)
                 \<and> rcpt_fn r = Copy_to (length (stack w) + length pre)
                 \<and> param w' (length (stack w) + length pre) = None
                 \<and> delivered r \<le> 1
                 \<and> (delivered r \<noteq> 0 \<longrightarrow> deliver slave i w' = w')
                 \<and> (\<forall>s. delivered r = 0 \<and> decorations (packets w' ! slave) (id_type p) = Some s \<longrightarrow>
                        deliver slave i w' = mark_delivered slave i (w'\<lparr>undefined_behaviour := True\<rparr>)
                      \<and> heap (deliver slave i w') = heap w'
                      \<and> undefined_behaviour (deliver slave i w')))"
proof (intro conjI allI)
  show rec: "recipients (packets (AutoFilter packet data w) ! length (packets w))
           = extraction_recipients (map fst data) (length (stack w))"
    by (rule output_recipients [OF assms])
  show "length (recipients (packets (AutoFilter packet data w) ! length (packets w)))
           = length (filter is_output (map fst data))"
    by (simp only: rec extraction_recipients_length)
next
  fix es
  define w' where "w' = run es (AutoFilter packet data w)"
  define slave where "slave = length (packets w)"
  define i where "i = length (filter is_output (map fst pre))"
  define r where "r = recipients (packets w' ! slave) ! i"
  define ref where "ref = length (stack w) + length pre"
  note later = output_recipient_later [OF assms, of es packet,
      folded w'_def slave_def i_def ref_def, folded r_def]
  have dead: "param w' ref = None"
    unfolding w'_def ref_def by (rule param_after_return)
  have fire: "deliver slave i w' = mark_delivered slave i (w'\<lparr>undefined_behaviour := True\<rparr>)
       \<and> heap (deliver slave i w') = heap w'
       \<and> undefined_behaviour (deliver slave i w')"
    if h: "delivered r = 0 \<and> decorations (packets w' ! slave) (id_type p) = Some s" for s
  proof -
    from h have r0: "delivered (recipients (packets w' ! slave) ! i) = 0" by (simp add: r_def)
    from h have dec: "decorations (packets w' ! slave) (id_type p) = Some s" by simp
    have "deliver slave i w' = mark_delivered slave i (call_extraction ref s w')"
      by (rule deliver_extract [OF later(1,2) later(3,4) [unfolded r_def] r0 dec])
    then have eq: "deliver slave i w' = mark_delivered slave i (w'\<lparr>undefined_behaviour := True\<rparr>)"
      by (simp add: call_extraction_dead [OF dead])
    show ?thesis
      by (simp add: eq mark_delivered_heap mark_delivered_undefined)
  qed
  have again: "delivered r \<noteq> 0 \<longrightarrow> deliver slave i w' = w'"
    by (simp add: r_def deliver_again)
  have main: "rcpt_sig r = Sig_in (id_type p)
         \<and> rcpt_fn r = Copy_to ref
         \<and> param w' ref = None
         \<and> delivered r \<le> 1
         \<and> (delivered r \<noteq> 0 \<longrightarrow> deliver slave i w' = w')
         \<and> (\<forall>s. delivered r = 0 \<and> decorations (packets w' ! slave) (id_type p) = Some s \<longrightarrow>
                deliver slave i w' = mark_delivered slave i (w'\<lparr>undefined_behaviour := True\<rparr>)
              \<and> heap (deliver slave i w') = heap w'
              \<and> undefined_behaviour (deliver slave i w'))"
  proof (intro conjI allI impI)
    show "rcpt_sig r = Sig_in (id_type p)" by (rule later(3))
    show "rcpt_fn r = Copy_to ref" by (rule later(4))
    show "param w' ref = None" by (rule dead)
    show "delivered r \<le> 1" using later(5) by simp
    show "deliver slave i w' = w'" if "delivered r \<noteq> 0" using that again by simp
  next
    fix s
    assume h: "delivered r = 0 \<and> decorations (packets w' ! slave) (id_type p) = Some s"
    show "deliver slave i w' = mark_delivered slave i (w'\<lparr>undefined_behaviour := True\<rparr>)"
      by (rule fire [OF h, THEN conjunct1])
    show "heap (deliver slave i w') = heap w'"
      by (rule fire [OF h, THEN conjunct2, THEN conjunct1])
    show "undefined_behaviour (deliver slave i w')"
      by (rule fire [OF h, THEN conjunct2, THEN conjunct2])
  qed
  then show "let w' = run es (AutoFilter packet data w);
                    slave = length (packets w);
                    i = length (filter is_output (map fst pre));
                    r = recipients (packets w' ! slave) ! i
                in rcpt_sig r = Sig_in (id_type p)
                 \<and> rcpt_fn r = Copy_to (length (stack w) + length pre)
                 \<and> param w' (length (stack w) + length pre) = None
                 \<and> delivered r \<le> 1
                 \<and> (delivered r \<noteq> 0 \<longrightarrow> deliver slave i w' = w')
                 \<and> (\<forall>s. delivered r = 0 \<and> decorations (packets w' ! slave) (id_type p) = Some s \<longrightarrow>
                        deliver slave i w' = mark_delivered slave i (w'\<lparr>undefined_behaviour := True\<rparr>)
                      \<and> heap (deliver slave i w') = heap w'
                      \<and> undefined_behaviour (deliver slave i w'))"
    unfolding Let_def w'_def slave_def i_def r_def ref_def .
qed

theorem output_extraction_dangling_witness:
  "bound world1 \<and> is_output (Auto_out 5)
   \<and> recipients (packets (AutoFilter 0 [(Shared_in 3, 0), (Auto_out 5, 1)] world1) ! 1)
       = [extract_recipient 5 1]
   \<and> decorated_value (run [Ev_decorate 1 5 2] (AutoFilter 0 [(Shared_in 3, 0), (Auto_out 5, 1)] world1)) 1 5
       = Some 314
   \<and> undefined_behaviour
       (deliver 1 0 (run [Ev_decorate 1 5 2] (AutoFilter 0 [(Shared_in 3, 0), (Auto_out 5, 1)] world1)))
   \<and> read_cell
       (deliver 1 0 (run [Ev_decorate 1 5 2] (AutoFilter 0 [(Shared_in 3, 0), (Auto_out 5, 1)] world1))) 1
       = Some 0"
proof -
  let ?D = "[(Shared_in 3, 0), (Auto_out 5, 1 :: addr)]"
  let ?w' = "run [Ev_decorate 1 5 2] (AutoFilter 0 ?D world1)"
  have d: "?D = [(Shared_in 3, 0)] @ (Auto_out 5, 1) # []" by simp
  have o: "is_output (Auto_out 5)" by simp
  have w': "?w' = world1\<lparr>packets := [fresh_packet,
      \<lparr>decorations = [3 \<mapsto> 0, 5 \<mapsto> 2], recipients = [extract_recipient 5 1], finalized = False\<rparr>]\<rparr>"
    by (simp add: engine_defs world_defs)
  note t = output_extraction_dangling [OF world1_facts(1) d o, of 0]
  have t1: "recipients (packets (AutoFilter 0 ?D world1) ! 1) = [extract_recipient 5 1]"
    using t [THEN conjunct1] by (simp add: world1_facts)
  note t2 = t [THEN conjunct2, THEN conjunct2, THEN spec, of "[Ev_decorate 1 5 2]", unfolded Let_def]
  have pre: "length (filter is_output (map fst [(Shared_in 3, 0 :: addr)])) = 0" by simp
  have r0: "delivered (recipients (packets ?w' ! 1) ! 0) = 0"
    and dc: "decorations (packets ?w' ! 1) (id_type (Auto_out 5)) = Some 2"
    and hp: "heap ?w' = [7, 0, 314]"
    and dv: "decorated_value ?w' 1 5 = Some 314"
    unfolding w' by (simp_all add: extract_recipient_def decorated_value_def read_cell_def world_defs)
  from t2 [unfolded pre world1_facts(2)] have
    "\<forall>s. delivered (recipients (packets ?w' ! 1) ! 0) = 0
          \<and> decorations (packets ?w' ! 1) (id_type (Auto_out 5)) = Some s \<longrightarrow>
        heap (deliver 1 0 ?w') = heap ?w' \<and> undefined_behaviour (deliver 1 0 ?w')"
    by blast
  from this [THEN spec, of 2] r0 dc hp
  have "undefined_behaviour (deliver 1 0 ?w')" and "read_cell (deliver 1 0 ?w') 1 = Some 0"
    by (simp_all add: read_cell_def)
  with t1 dv world1_facts(1) o show ?thesis by simp
qed

subsection \<open>Outputs must use the extraction marker\<close>

text \<open>
  C7. Instantiating \<^verbatim>\<open>AutoFilter\<close> for a pack fails with the static assertion exactly
  when the pack declares an output whose type is not \<^verbatim>\<open>auto_out\<close> of its value type,
  and yields the pack otherwise: the rejection depends on the declared types alone,
  so it happens before there is a call, a packet or a world.
\<close>

theorem wrong_output_wrapper_rejected:
  "(AutoFilter_instantiate Args = Inl Output_types_must_be_auto_out)
     = (\<exists>p\<in>set Args. is_output p \<and> p \<noteq> Auto_out (id_type p))
   \<and> (AutoFilter_instantiate Args = Inr Args)
     = (\<forall>p\<in>set Args. is_output p \<longrightarrow> p = Auto_out (id_type p))"
proof -
  have r: "(AutoFilter_instantiate Args = Inr Args)
     = (\<forall>p\<in>set Args. is_output p \<longrightarrow> p = Auto_out (id_type p))"
    by (simp add: instantiate_Inr)
  have "(AutoFilter_instantiate Args = Inl Output_types_must_be_auto_out)
     = (\<forall>qs. AutoFilter_instantiate Args \<noteq> Inr qs)"
    by (cases "AutoFilter_instantiate Args") (auto intro: static_error.exhaust)
  also have "\<dots> = (\<exists>p\<in>set Args. is_output p \<and> p \<noteq> Auto_out (id_type p))"
    by (auto simp add: instantiate_Inr)
  finally show ?thesis using r by simp
qed

theorem wrong_output_wrapper_rejected_witness:
  "AutoFilter_instantiate [Shared_in 3, Ref_out 5] = Inl Output_types_must_be_auto_out
   \<and> AutoFilter_instantiate [Shared_in 3, Auto_out 5] = Inr [Shared_in 3, Auto_out 5]"
  using wrong_output_wrapper_rejected [of "[Shared_in 3, Ref_out 5]"]
    wrong_output_wrapper_rejected [of "[Shared_in 3, Auto_out 5]"]
  by simp

subsection \<open>A dead target context\<close>

text \<open>
  C4. Every call to \<^verbatim>\<open>Leash\<close> clears the factory reference. When the context
  reference does not lock at the call, nothing else changes. When the captured
  reference does not lock at the time a pending callback fires, the callback changes
  nothing (the engine only drops it); in particular, binding to a live context that
  is torn down before its callback fires leaves the stile unbound. No result of
  these functions is an error.
\<close>

theorem Leash_dead_context_stays_unbound:
  "m_slave_factory (stile (Leash c w)) = None
   \<and> (lock_context w c = None \<longrightarrow> Leash c w = w\<lparr>stile := (stile w)\<lparr>m_slave_factory := None\<rparr>\<rparr>)
   \<and> (\<forall>(w' :: world) i. i < length (listeners w') \<and> lock_context w' (ln_captured (listeners w' ! i)) = None \<longrightarrow>
         notify i w' = w'\<lparr>listeners := take i (listeners w') @ drop (Suc i) (listeners w')\<rparr>)
   \<and> (contexts w k \<noteq> None \<longrightarrow>
         notify (length (listeners w)) (destroy_context k (Leash (Some k) w))
           = (destroy_context k w)\<lparr>stile := (stile w)\<lparr>m_slave_factory := None\<rparr>\<rparr>)"
proof (intro conjI allI impI)
  show "m_slave_factory (stile (Leash c w)) = None" by (rule Leash_cleared)
  show "Leash c w = w\<lparr>stile := (stile w)\<lparr>m_slave_factory := None\<rparr>\<rparr>" if "lock_context w c = None"
  proof -
    have "lock_context (w\<lparr>stile := (stile w)\<lparr>m_slave_factory := None\<rparr>\<rparr>) c = lock_context w c"
      by (rule lock_context_cong) simp
    with that show ?thesis by (simp add: Leash_def Let_def)
  qed
  show "notify i w' = w'\<lparr>listeners := take i (listeners w') @ drop (Suc i) (listeners w')\<rparr>"
    if "i < length (listeners w') \<and> lock_context w' (ln_captured (listeners w' ! i)) = None"
    for w' :: world and i
    using that notify_dead [of i w'] by simp
  show "notify (length (listeners w)) (destroy_context k (Leash (Some k) w))
           = (destroy_context k w)\<lparr>stile := (stile w)\<lparr>m_slave_factory := None\<rparr>\<rparr>"
    if "contexts w k \<noteq> None"
    using that
    by (simp add: Leash_def Let_def lock_context_def NotifyWhenAutowired_def destroy_context_def
        notify_def Leash_lambda_def)
qed

theorem Leash_dead_context_stays_unbound_witness:
  "lock_context world1 (Some 4) = None
   \<and> Leash (Some 4) world1 = world1\<lparr>stile := \<lparr>m_slave_factory = None\<rparr>\<rparr>
   \<and> contexts world2 0 \<noteq> None
   \<and> notify 0 (destroy_context 0 (Leash (Some 0) world2)) = destroy_context 0 world2"
proof -
  have h1: "lock_context world1 (Some 4) = None" by (simp add: lock_context_def world_defs)
  have h2: "contexts world2 0 \<noteq> None" by (simp add: world_defs)
  have e1: "(stile world1)\<lparr>m_slave_factory := None\<rparr> = \<lparr>m_slave_factory = None\<rparr>"
    by (simp add: world_defs)
  have e2: "(destroy_context 0 world2)\<lparr>stile := (stile world2)\<lparr>m_slave_factory := None\<rparr>\<rparr>
              = destroy_context 0 world2"
    by (simp add: destroy_context_def world_defs)
  have e3: "length (listeners world2) = 0" by (simp add: world_defs)
  from Leash_dead_context_stays_unbound [of "Some 4" world1 0]
  have a: "Leash (Some 4) world1 = world1\<lparr>stile := \<lparr>m_slave_factory = None\<rparr>\<rparr>"
    using h1 e1 by simp
  from Leash_dead_context_stays_unbound [of "Some 0" world2 0]
  have b: "notify 0 (destroy_context 0 (Leash (Some 0) world2)) = destroy_context 0 world2"
    using h2 e2 e3 by simp
  from a b h1 h2 show ?thesis by simp
qed

subsection \<open>Binding again while a callback is pending\<close>

text \<open>
  C3, as the spec states it: after \<^verbatim>\<open>Leash\<close> to a context B while the callback of an
  earlier \<^verbatim>\<open>Leash\<close> to a context A is pending, only B's resolution can set the factory
  reference. The code keeps A's callback: below, both contexts are bound in turn, B
  resolves and sets the reference to B's factory, then A resolves while alive and
  the reference becomes A's factory.
\<close>

theorem stale_callback_counterexample:
  "m_slave_factory (stile (notify 1 (autowire 1 1 (Leash (Some 1) (Leash (Some 0) world2))))) = Some 1
   \<and> m_slave_factory (stile (notify 0 (autowire 0 0
        (notify 1 (autowire 1 1 (Leash (Some 1) (Leash (Some 0) world2))))))) = Some 0"
proof
  let ?wB = "Leash (Some 1) (Leash (Some 0) world2)"
  let ?w1 = "autowire 1 1 ?wB"
  let ?w2 = "notify 1 ?w1"
  let ?w3 = "autowire 0 0 ?w2"
  have c: "contexts world2 = [0 \<mapsto> \<lparr>ctx_factory = None\<rparr>, 1 \<mapsto> \<lparr>ctx_factory = None\<rparr>]"
    by (simp add: world_defs)
  have l1: "listeners ?w1 =
      [\<lparr>ln_context = 0, ln_captured = Some 0\<rparr>, \<lparr>ln_context = 1, ln_captured = Some 1\<rparr>]"
    by (simp only: autowire_frame(1) two_binds(1))
  have ctx1: "contexts ?w1 = [0 \<mapsto> \<lparr>ctx_factory = None\<rparr>, 1 \<mapsto> \<lparr>ctx_factory = Some 1\<rparr>]"
    unfolding autowire_frame(3) two_binds(2) c by simp
  have fac1: "factories ?w1 = {1}"
    unfolding autowire_frame(4) two_binds(2,3) c by simp
  have i1: "1 < length (listeners ?w1)" and cap1: "ln_captured (listeners ?w1 ! 1) = Some 1"
    unfolding l1 by simp_all
  have f1: "FindByTypeRecursive ?w1 1 = Some 1"
    unfolding FindByTypeRecursive_def lock_factory_def ctx1 fac1 by simp
  have a1: "contexts ?w1 1 \<noteq> None" unfolding ctx1 by simp
  from notify_stile [OF i1 cap1] a1 f1
  show "m_slave_factory (stile ?w2) = Some 1" by simp
  have l2: "listeners ?w2 = [\<lparr>ln_context = 0, ln_captured = Some 0\<rparr>]"
    unfolding notify_frame(3) l1 by simp
  have ctx2: "contexts ?w2 = [0 \<mapsto> \<lparr>ctx_factory = None\<rparr>, 1 \<mapsto> \<lparr>ctx_factory = Some 1\<rparr>]"
    unfolding notify_frame(1) ctx1 by simp
  have fac2: "factories ?w2 = {1}" unfolding notify_frame(2) fac1 by simp
  have l3: "listeners ?w3 = [\<lparr>ln_context = 0, ln_captured = Some 0\<rparr>]"
    unfolding autowire_frame(1) l2 by simp
  have ctx3: "contexts ?w3 0 = Some \<lparr>ctx_factory = Some 0\<rparr>"
    unfolding autowire_frame(3) ctx2 by simp
  have fac3: "factories ?w3 = {0, 1}" unfolding autowire_frame(4) ctx2 fac2 by simp
  have i3: "0 < length (listeners ?w3)" and cap3: "ln_captured (listeners ?w3 ! 0) = Some 0"
    unfolding l3 by simp_all
  have f3: "FindByTypeRecursive ?w3 0 = Some 0"
    unfolding FindByTypeRecursive_def lock_factory_def ctx3 fac3 by simp
  have a3: "contexts ?w3 0 \<noteq> None" unfolding ctx3 by simp
  from notify_stile [OF i3 cap3] a3 f3
  show "m_slave_factory (stile (notify 0 ?w3)) = Some 0" by simp
qed

text \<open>
  C3, amended: \<^verbatim>\<open>Leash\<close> to B clears the factory reference and leaves every pending
  callback in place. When the pending callback of A fires afterwards and A is alive,
  it assigns what the lookup from A finds, whatever was bound in between; it leaves
  the stile as it is only when A is dead at that time.
\<close>

theorem pending_callback_survives_rebind:
  assumes "i < length (listeners w)" and "ln_captured (listeners w ! i) = Some A"
      and "contexts w A \<noteq> None"
  shows "m_slave_factory (stile (Leash B w)) = None
       \<and> i < length (listeners (Leash B w)) \<and> listeners (Leash B w) ! i = listeners w ! i
       \<and> m_slave_factory (stile (notify i (Leash B w))) = FindByTypeRecursive w A
       \<and> (\<forall>w' :: world. i < length (listeners w') \<and> ln_captured (listeners w' ! i) = Some A \<longrightarrow>
             m_slave_factory (stile (notify i w')) =
               (if contexts w' A \<noteq> None then FindByTypeRecursive w' A
                else m_slave_factory (stile w')))"
proof (intro conjI allI impI)
  show "m_slave_factory (stile (Leash B w)) = None" by (rule Leash_cleared)
  show len: "i < length (listeners (Leash B w))" using assms(1) by (simp add: Leash_listeners)
  show nth: "listeners (Leash B w) ! i = listeners w ! i"
    using assms(1) by (simp add: Leash_listeners nth_append)
  have "m_slave_factory (stile (notify i (Leash B w))) = FindByTypeRecursive (Leash B w) A"
    using notify_stile [OF len, of A] nth assms(2,3) by (simp add: Leash_frame)
  also have "\<dots> = FindByTypeRecursive w A"
    by (rule FindByTypeRecursive_cong) (simp_all add: Leash_frame)
  finally show "m_slave_factory (stile (notify i (Leash B w))) = FindByTypeRecursive w A" .
next
  fix w' :: world
  assume "i < length (listeners w') \<and> ln_captured (listeners w' ! i) = Some A"
  then show "m_slave_factory (stile (notify i w')) =
               (if contexts w' A \<noteq> None then FindByTypeRecursive w' A
                else m_slave_factory (stile w'))"
    using notify_stile [of i w' A] by simp
qed

theorem pending_callback_survives_rebind_witness:
  "0 < length (listeners (autowire 0 0 (Leash (Some 0) world2)))
   \<and> ln_captured (listeners (autowire 0 0 (Leash (Some 0) world2)) ! 0) = Some 0
   \<and> contexts (autowire 0 0 (Leash (Some 0) world2)) 0 \<noteq> None
   \<and> m_slave_factory (stile (notify 0 (Leash (Some 1) (autowire 0 0 (Leash (Some 0) world2))))) = Some 0"
proof -
  let ?w = "autowire 0 0 (Leash (Some 0) world2)"
  have h1: "0 < length (listeners ?w)" by (simp add: engine_defs world_defs)
  have h2: "ln_captured (listeners ?w ! 0) = Some 0" by (simp add: engine_defs world_defs)
  have h3: "contexts ?w 0 \<noteq> None" by (simp add: engine_defs world_defs)
  have v: "FindByTypeRecursive ?w 0 = Some 0" by (simp add: engine_defs world_defs)
  from pending_callback_survives_rebind [OF h1 h2 h3, of "Some 1"] h1 h2 h3 v
  show ?thesis by simp
qed

subsection \<open>A resolution that finds no factory\<close>

text \<open>
  C10. When a pending callback fires for a context that is alive and the lookup from
  that context finds no factory, the factory reference becomes empty: the stile is
  unbound, and every \<^verbatim>\<open>AutoFilter\<close> call on the resulting world returns it unchanged.
\<close>

theorem empty_lookup_leaves_unbound:
  assumes "i < length (listeners w)"
      and "lock_context w (ln_captured (listeners w ! i)) = Some c"
      and "FindByTypeRecursive w c = None"
  shows "m_slave_factory (stile (notify i w)) = None
       \<and> \<not> bound (notify i w)
       \<and> (\<forall>packet data. AutoFilter packet data (notify i w) = notify i w)"
proof -
  from assms(2) have cap: "ln_captured (listeners w ! i) = Some c" and alive: "contexts w c \<noteq> None"
    by (auto simp add: lock_context_def split: option.splits if_splits)
  have none: "m_slave_factory (stile (notify i w)) = None"
    using notify_stile [OF assms(1) cap] alive assms(3) by simp
  then have "lock_factory (notify i w) (m_slave_factory (stile (notify i w))) = None"
    by (simp add: lock_factory_def)
  then have "\<not> bound (notify i w)" by (simp add: bound_def)
  then show ?thesis using none by (simp add: AutoFilter_unbound)
qed

theorem empty_lookup_leaves_unbound_witness:
  "0 < length (listeners (Leash (Some 0) world2))
   \<and> lock_context (Leash (Some 0) world2) (ln_captured (listeners (Leash (Some 0) world2) ! 0)) = Some 0
   \<and> FindByTypeRecursive (Leash (Some 0) world2) 0 = None
   \<and> AutoFilter 0 [(Shared_in 3, 0)] (notify 0 (Leash (Some 0) world2)) = notify 0 (Leash (Some 0) world2)"
proof -
  let ?w = "Leash (Some 0) world2"
  have h1: "0 < length (listeners ?w)" by (simp add: engine_defs world_defs)
  have h2: "lock_context ?w (ln_captured (listeners ?w ! 0)) = Some 0"
    by (simp add: engine_defs world_defs)
  have h3: "FindByTypeRecursive ?w 0 = None" by (simp add: engine_defs world_defs)
  from empty_lookup_leaves_unbound [OF h1 h2 h3] h1 h2 h3 show ?thesis by simp
qed

end
